theory Spec2Isabelle
  imports Main "HOL-Library.Signed_Division"
begin

section \<open>JavaScript values\<close>

text \<open>
  The values that flow through \<open>linear-algebra.ts\<close>. A finite integral \<open>number\<close> is
  \<open>Num k\<close>; the ring works on integers, and every result stays exact as long as it is below
  \<open>2 ^ 53\<close> in absolute value, which is assumed throughout. \<open>NaN\<close> is kept apart because the
  code produces it (arithmetic on \<open>undefined\<close>) and tests for it (\<open>!x\<close>); \<open>undefined\<close> and
  \<open>null\<close> are the two absent values.
\<close>

datatype jsval = Num int | NaN | Undefined | Null

text \<open>The conversion the arithmetic operators apply to an operand.\<close>

fun toNumber :: "jsval \<Rightarrow> jsval" where
  "toNumber (Num k) = Num k"
| "toNumber NaN = NaN"
| "toNumber Undefined = NaN"
| "toNumber Null = Num 0"

fun num_add :: "jsval \<Rightarrow> jsval \<Rightarrow> jsval" where
  "num_add (Num x) (Num y) = Num (x + y)"
| "num_add _ _ = NaN"

fun num_mul :: "jsval \<Rightarrow> jsval \<Rightarrow> jsval" where
  "num_mul (Num x) (Num y) = Num (x * y)"
| "num_mul _ _ = NaN"

text \<open>
  The remainder \<open>%\<close> truncates towards zero (its sign is the dividend's) and is \<open>NaN\<close> for
  a zero divisor.
\<close>

fun num_rem :: "jsval \<Rightarrow> jsval \<Rightarrow> jsval" where
  "num_rem (Num x) (Num y) = (if y = 0 then NaN else Num (x smod y))"
| "num_rem _ _ = NaN"

definition js_add :: "jsval \<Rightarrow> jsval \<Rightarrow> jsval" where
  "js_add a b = num_add (toNumber a) (toNumber b)"

definition js_mul :: "jsval \<Rightarrow> jsval \<Rightarrow> jsval" where
  "js_mul a b = num_mul (toNumber a) (toNumber b)"

definition js_rem :: "jsval \<Rightarrow> jsval \<Rightarrow> jsval" where
  "js_rem a b = num_rem (toNumber a) (toNumber b)"

text \<open>\<open>!v\<close>: the values that count as false.\<close>

fun falsy :: "jsval \<Rightarrow> bool" where
  "falsy (Num k) = (k = 0)"
| "falsy NaN = True"
| "falsy Undefined = True"
| "falsy Null = True"

text \<open>\<open>a === b\<close>: \<open>NaN\<close> is not equal to itself.\<close>

fun strict_eq :: "jsval \<Rightarrow> jsval \<Rightarrow> bool" where
  "strict_eq (Num x) (Num y) = (x = y)"
| "strict_eq Undefined Undefined = True"
| "strict_eq Null Null = True"
| "strict_eq _ _ = False"

text \<open>\<open>v == null\<close>: true of \<open>null\<close> and \<open>undefined\<close> only.\<close>

fun loose_eq_null :: "jsval \<Rightarrow> bool" where
  "loose_eq_null Undefined = True"
| "loose_eq_null Null = True"
| "loose_eq_null _ = False"

section \<open>Array helpers\<close>

text \<open>
  \<open>Array.prototype.findIndex\<close>: the index of the first element that satisfies the
  predicate, \<open>-1\<close> when there is none.
\<close>

fun findIndex :: "('a \<Rightarrow> bool) \<Rightarrow> 'a list \<Rightarrow> int" where
  "findIndex P [] = - 1"
| "findIndex P (x # xs) =
     (if P x then 0 else (let r = findIndex P xs in if r = - 1 then - 1 else r + 1))"

text \<open>\<open>indexOf\<close> compares with \<open>===\<close>; \<open>includes\<close> differs from it on \<open>NaN\<close> only, and an
  array of integers holds none.\<close>

definition indexOf :: "int list \<Rightarrow> jsval \<Rightarrow> int" where
  "indexOf xs v = findIndex (\<lambda>x. strict_eq (Num x) v) xs"

fun arr_includes :: "int list \<Rightarrow> jsval \<Rightarrow> bool" where
  "arr_includes xs (Num k) = (k \<in> set xs)"
| "arr_includes xs _ = False"

text \<open>Reading \<open>xs[i]\<close>: \<open>undefined\<close> outside the array.\<close>

definition at_index :: "int list \<Rightarrow> int \<Rightarrow> jsval" where
  "at_index xs i = (if 0 \<le> i \<and> i < int (length xs) then Num (xs ! nat i) else Undefined)"

text \<open>\<open>utils.fillArray\<close>: every slot is filled with the value, or with a fresh result of
  \<open>fn\<close>; with values instead of references the two agree.\<close>

definition fillArray :: "nat \<Rightarrow> 'a \<Rightarrow> 'a list" where
  "fillArray sz v = map (\<lambda>_. v) (replicate sz (0::nat))"

text \<open>\<open>utils.createIncreasingArray\<close>: the loop pushes \<open>from, from + 1, ..., to\<close>.\<close>

function createIncreasingArray_loop :: "int \<Rightarrow> int \<Rightarrow> int list \<Rightarrow> int list" where
  "createIncreasingArray_loop i to arr =
     (if i \<le> to then createIncreasingArray_loop (i + 1) to (arr @ [i]) else arr)"
  by pat_completeness auto
termination
  by (relation "measure (\<lambda>(i, to, arr). nat (to + 1 - i))") auto

declare createIncreasingArray_loop.simps [simp del]

definition createIncreasingArray :: "int \<Rightarrow> int \<Rightarrow> int list" where
  "createIncreasingArray from to = createIncreasingArray_loop from to []"

section \<open>The class Z\<close>

text \<open>
  Every \<open>throw new Error(...)\<close> of the file, named after its message, and the \<open>TypeError\<close>
  of a method call on \<open>undefined\<close>.
\<close>

datatype error =
    VariablesRequired
  | VariableZero
  | VariableNotIncluded
  | VariableRequired
  | InitialValueRequired
  | AdditionRequired
  | SubtrahendRequired
  | MultiplierRequired
  | DivisorInvalid
  | TypeError

type_synonym matrix = "jsval list list"

record Z =
  Z_table_addition :: matrix
  Z_table_multiply :: matrix
  Z_variables :: "int list"
  Z_n :: nat

text \<open>The static \<open>Z.sum\<close> and \<open>Z.multiply\<close>, and the instance methods that pass \<open>this._n\<close>.\<close>

definition Z_static_sum :: "jsval \<Rightarrow> jsval \<Rightarrow> jsval \<Rightarrow> jsval" where
  "Z_static_sum n a b = js_rem (js_add a b) n"

definition Z_static_multiply :: "jsval \<Rightarrow> jsval \<Rightarrow> jsval \<Rightarrow> jsval" where
  "Z_static_multiply n a b = js_rem (js_mul a b) n"

definition Z_sum :: "Z \<Rightarrow> jsval \<Rightarrow> jsval \<Rightarrow> jsval" where
  "Z_sum z a b = Z_static_sum (Num (int (Z_n z))) a b"

definition Z_multiply :: "Z \<Rightarrow> jsval \<Rightarrow> jsval \<Rightarrow> jsval" where
  "Z_multiply z a b = Z_static_multiply (Num (int (Z_n z))) a b"

subsection \<open>operationTable\<close>

text \<open>\<open>matrix[i][j] = matrix[j][i] = v\<close>: the right assignment is done first.\<close>

definition assign_both :: "matrix \<Rightarrow> nat \<Rightarrow> nat \<Rightarrow> jsval \<Rightarrow> matrix" where
  "assign_both matrix i j v =
     (let m1 = matrix[j := (matrix ! j)[i := v]]
      in m1[i := (m1 ! i)[j := v]])"

text \<open>The inner loop \<open>for (let j = i; j < n; j++)\<close>, entered at \<open>j\<close>. The operation receives
  the loop counters themselves.\<close>

function operationTable_inner ::
  "(jsval \<Rightarrow> jsval \<Rightarrow> jsval) \<Rightarrow> nat \<Rightarrow> nat \<Rightarrow> nat \<Rightarrow> matrix \<Rightarrow> matrix" where
  "operationTable_inner operation n i j matrix =
     (if j < n
      then operationTable_inner operation n i (j + 1)
             (assign_both matrix i j (operation (Num (int i)) (Num (int j))))
      else matrix)"
  by pat_completeness auto
termination
  by (relation "measure (\<lambda>(operation, n, i, j, matrix). n - j)") auto

declare operationTable_inner.simps [simp del]

text \<open>The outer loop \<open>for (let i = 0; i < n; i++)\<close>, entered at \<open>i\<close>.\<close>

function operationTable_outer ::
  "(jsval \<Rightarrow> jsval \<Rightarrow> jsval) \<Rightarrow> nat \<Rightarrow> nat \<Rightarrow> matrix \<Rightarrow> matrix" where
  "operationTable_outer operation n i matrix =
     (if i < n
      then operationTable_outer operation n (i + 1) (operationTable_inner operation n i i matrix)
      else matrix)"
  by pat_completeness auto
termination
  by (relation "measure (\<lambda>(operation, n, i, matrix). n - i)") auto

declare operationTable_outer.simps [simp del]

text \<open>
  \<open>Z.operationTable\<close>. The argument is a list of numbers and the operation a function, so
  of its checks only the one for an empty array can fail. The function also sorts
  \<open>variables\<close> in place; the constructor has sorted the array before the call, and the
  table does not depend on its contents.
\<close>

definition operationTable :: "int list \<Rightarrow> (jsval \<Rightarrow> jsval \<Rightarrow> jsval) \<Rightarrow> error + matrix" where
  "operationTable variables operation =
     (if variables = [] then Inl VariablesRequired
      else
        let n = length variables;
            matrix = fillArray n (fillArray n (Num 0))
        in Inr (operationTable_outer operation n 0 matrix))"

subsection \<open>Construction\<close>

text \<open>The constructor: the array is checked, sorted ascending, and both tables are built
  with the instance's own \<open>sum\<close> and \<open>multiply\<close>, which read the \<open>_n\<close> just assigned.\<close>

definition Z_new :: "int list \<Rightarrow> error + Z" where
  "Z_new variables =
     (if variables = [] then Inl VariablesRequired
      else
        let vs = sort variables;
            n = length vs
        in case operationTable vs (Z_static_sum (Num (int n))) of
             Inl e \<Rightarrow> Inl e
           | Inr addition \<Rightarrow>
               (case operationTable vs (Z_static_multiply (Num (int n))) of
                  Inl e \<Rightarrow> Inl e
                | Inr multiply \<Rightarrow>
                    Inr \<lparr>Z_table_addition = addition, Z_table_multiply = multiply,
                         Z_variables = vs, Z_n = n\<rparr>))"

definition createFromRange :: "int \<Rightarrow> int \<Rightarrow> error + Z" where
  "createFromRange from to = Z_new (createIncreasingArray from to)"

definition createFromN :: "int \<Rightarrow> error + Z" where
  "createFromN n = Z_new (createIncreasingArray 0 (n - 1))"

subsection \<open>Inverse lookups\<close>

text \<open>
  \<open>table[varIndex]\<close>: the row, or nothing outside the table, in which case the call of
  \<open>findIndex\<close> on it is a \<open>TypeError\<close>. The constructor always sets both tables, so the
  test \<open>this._table.multiply ? ... : -1\<close> always takes its first branch.
\<close>

definition row_at :: "matrix \<Rightarrow> int \<Rightarrow> jsval list option" where
  "row_at table i = (if 0 \<le> i \<and> i < int (length table) then Some (table ! nat i) else None)"

definition findInverseVariable :: "Z \<Rightarrow> jsval \<Rightarrow> error + jsval" where
  "findInverseVariable z variable =
     (if falsy variable \<or> strict_eq variable (Num 0) then Inl VariableZero
      else if \<not> arr_includes (Z_variables z) variable then Inl VariableNotIncluded
      else
        let varIndex = indexOf (Z_variables z) variable
        in case row_at (Z_table_multiply z) varIndex of
             None \<Rightarrow> Inl TypeError
           | Some row \<Rightarrow>
               (let inverseVarIndex =
                      findIndex (\<lambda>multiplyResult. strict_eq multiplyResult (Num 1)) row
                in Inr (if inverseVarIndex = - 1 then Undefined
                        else at_index (Z_variables z) inverseVarIndex)))"

definition findAdditiveInverseVariable :: "Z \<Rightarrow> jsval \<Rightarrow> error + jsval" where
  "findAdditiveInverseVariable z variable =
     (if falsy variable \<and> \<not> strict_eq variable (Num 0) then Inl VariableRequired
      else if \<not> arr_includes (Z_variables z) variable then Inl VariableNotIncluded
      else
        let varIndex = indexOf (Z_variables z) variable
        in case row_at (Z_table_addition z) varIndex of
             None \<Rightarrow> Inl TypeError
           | Some row \<Rightarrow>
               (let additiveInverseVarIndex =
                      findIndex (\<lambda>multiplyResult. strict_eq multiplyResult (Num 0)) row
                in Inr (if additiveInverseVarIndex = - 1 then Undefined
                        else at_index (Z_variables z) additiveInverseVarIndex)))"

section \<open>Field and FVar\<close>

record Field =
  F_sum :: "jsval \<Rightarrow> jsval \<Rightarrow> jsval"
  F_multiply :: "jsval \<Rightarrow> jsval \<Rightarrow> jsval"
  f0 :: jsval
  f1 :: jsval
  getInverseVariable :: "jsval \<Rightarrow> error + jsval"
  getAdditiveInverseVariable :: "jsval \<Rightarrow> error + jsval"

text \<open>The \<open>_field\<close> object the constructor builds from the instance's bound methods.\<close>

definition Z_field :: "Z \<Rightarrow> Field" where
  "Z_field z =
     \<lparr>F_sum = Z_sum z, F_multiply = Z_multiply z, f0 = Num 0, f1 = Num 1,
      getInverseVariable = findInverseVariable z,
      getAdditiveInverseVariable = findAdditiveInverseVariable z\<rparr>"

record FVar =
  FVar_field :: Field
  FVar_value :: jsval

definition FVar_new :: "jsval \<Rightarrow> Field \<Rightarrow> error + FVar" where
  "FVar_new initialValue field =
     (if loose_eq_null initialValue then Inl InitialValueRequired
      else Inr \<lparr>FVar_field = field, FVar_value = initialValue\<rparr>)"

definition getFVar :: "Z \<Rightarrow> jsval \<Rightarrow> error + FVar" where
  "getFVar z initialValue = FVar_new initialValue (Z_field z)"

text \<open>
  A method of \<open>FVar\<close> takes the element and gives back what was thrown, if anything, and
  the element as the call leaves it. The right-hand side of \<open>this._value = ...\<close> is
  evaluated before the assignment, so an exception inside it comes before the write.
\<close>

type_synonym outcome = "error option \<times> FVar"

definition setValueToF0 :: "FVar \<Rightarrow> outcome" where
  "setValueToF0 this = (None, this\<lparr>FVar_value := f0 (FVar_field this)\<rparr>)"

definition setValueToF1 :: "FVar \<Rightarrow> outcome" where
  "setValueToF1 this = (None, this\<lparr>FVar_value := f1 (FVar_field this)\<rparr>)"

definition FVar_sum :: "jsval \<Rightarrow> FVar \<Rightarrow> outcome" where
  "FVar_sum addition this =
     (if falsy addition \<and> \<not> strict_eq addition (Num 0) then (Some AdditionRequired, this)
      else (None, this\<lparr>FVar_value := F_sum (FVar_field this) (FVar_value this) addition\<rparr>))"

definition FVar_subtract :: "jsval \<Rightarrow> FVar \<Rightarrow> outcome" where
  "FVar_subtract subtrahend this =
     (if falsy subtrahend \<and> \<not> strict_eq subtrahend (Num 0) then (Some SubtrahendRequired, this)
      else case getAdditiveInverseVariable (FVar_field this) subtrahend of
             Inl e \<Rightarrow> (Some e, this)
           | Inr y \<Rightarrow> (None, this\<lparr>FVar_value := F_sum (FVar_field this) (FVar_value this) y\<rparr>))"

definition FVar_multiply :: "jsval \<Rightarrow> FVar \<Rightarrow> outcome" where
  "FVar_multiply multiplier this =
     (if falsy multiplier \<and> \<not> strict_eq multiplier (Num 0) then (Some MultiplierRequired, this)
      else (None, this\<lparr>FVar_value := F_multiply (FVar_field this) (FVar_value this) multiplier\<rparr>))"

definition FVar_divide :: "jsval \<Rightarrow> FVar \<Rightarrow> outcome" where
  "FVar_divide divisor this =
     (if (falsy divisor \<and> \<not> strict_eq divisor (Num 0)) \<or> strict_eq divisor (f0 (FVar_field this))
      then (Some DivisorInvalid, this)
      else case getInverseVariable (FVar_field this) divisor of
             Inl e \<Rightarrow> (Some e, this)
           | Inr y \<Rightarrow> (None, this\<lparr>FVar_value := F_multiply (FVar_field this) (FVar_value this) y\<rparr>))"

definition clone :: "FVar \<Rightarrow> error + FVar" where
  "clone this = FVar_new (FVar_value this) (FVar_field this)"

text \<open>Chaining \<open>a.m1(..).m2(..)\<close>: the second call runs only if the first returned.\<close>

definition and_then :: "outcome \<Rightarrow> (FVar \<Rightarrow> outcome) \<Rightarrow> outcome" where
  "and_then r m = (case fst r of Some e \<Rightarrow> r | None \<Rightarrow> m (snd r))"

section \<open>Arrays as shared objects\<close>

text \<open>
  An array is an object that several references may share: the constructor keeps the very
  array it was given and sorts it in place, and the table getters hand out arrays of
  arrays. The store lists the objects; an address is a position in it, and allocation
  appends. Three shapes of array occur: the representatives, a table row, and a table
  (an array of references to rows).
\<close>

type_synonym addr = nat

datatype obj = Ints "int list" | Numbers "jsval list" | Rows "addr list"

type_synonym store = "obj list"

definition alloc :: "store \<Rightarrow> obj \<Rightarrow> addr \<times> store" where
  "alloc s ob = (length s, s @ [ob])"

definition read_ints :: "store \<Rightarrow> addr \<Rightarrow> int list" where
  "read_ints s a = (if a < length s then (case s ! a of Ints xs \<Rightarrow> xs | _ \<Rightarrow> []) else [])"

definition read_numbers :: "store \<Rightarrow> addr \<Rightarrow> jsval list" where
  "read_numbers s a = (if a < length s then (case s ! a of Numbers xs \<Rightarrow> xs | _ \<Rightarrow> []) else [])"

definition read_rows :: "store \<Rightarrow> addr \<Rightarrow> addr list" where
  "read_rows s a = (if a < length s then (case s ! a of Rows rs \<Rightarrow> rs | _ \<Rightarrow> []) else [])"

definition read_matrix :: "store \<Rightarrow> addr \<Rightarrow> matrix" where
  "read_matrix s a = map (read_numbers s) (read_rows s a)"

text \<open>Building a table in the store: one fresh array per row, then the array of rows.\<close>

fun alloc_rows :: "store \<Rightarrow> matrix \<Rightarrow> addr list \<times> store" where
  "alloc_rows s [] = ([], s)"
| "alloc_rows s (row # rows) =
     (let (a, s1) = alloc s (Numbers row);
          (as, s2) = alloc_rows s1 rows
      in (a # as, s2))"

definition alloc_matrix :: "store \<Rightarrow> matrix \<Rightarrow> addr \<times> store" where
  "alloc_matrix s M = (let (rs, s1) = alloc_rows s M in alloc s1 (Rows rs))"

text \<open>
  \<open>cloneDeep\<close> is lodash's, not this repository's. On a table it returns a new array of
  new rows that hold the same numbers, and that is all the getters ask of it.
\<close>

definition cloneDeep :: "store \<Rightarrow> addr \<Rightarrow> addr \<times> store" where
  "cloneDeep s a = alloc_matrix s (read_matrix s a)"

text \<open>The fields of an instance of \<open>Z\<close>, as references into the store.\<close>

record Z_ref =
  ref_addition :: addr
  ref_multiply :: addr
  ref_variables :: addr
  ref_n :: nat

text \<open>What the methods of the instance read: its fields, dereferenced.\<close>

definition view :: "store \<Rightarrow> Z_ref \<Rightarrow> Z" where
  "view s h =
     \<lparr>Z_table_addition = read_matrix s (ref_addition h),
      Z_table_multiply = read_matrix s (ref_multiply h),
      Z_variables = read_ints s (ref_variables h),
      Z_n = ref_n h\<rparr>"

text \<open>
  The constructor on the store. \<open>this._variables = variables\<close> keeps the caller's array,
  \<open>sort\<close> rewrites it in place, and the two tables are new objects. When the check fails
  nothing has been written yet.
\<close>

definition Z_construct :: "store \<Rightarrow> addr \<Rightarrow> (error + Z_ref) \<times> store" where
  "Z_construct s variables =
     (case Z_new (read_ints s variables) of
        Inl e \<Rightarrow> (Inl e, s)
      | Inr z \<Rightarrow>
          (let s1 = s[variables := Ints (Z_variables z)];
               (a, s2) = alloc_matrix s1 (Z_table_addition z);
               (m, s3) = alloc_matrix s2 (Z_table_multiply z)
           in (Inr \<lparr>ref_addition = a, ref_multiply = m, ref_variables = variables,
                    ref_n = Z_n z\<rparr>, s3)))"

text \<open>
  \<open>getAdditionTable(false)\<close> and \<open>getMultiplyTable(false)\<close>: the clone itself. With
  \<open>formatted\<close> left at its default the clone is passed to \<open>formatTable\<close>, which adds the
  headers to it in place and returns the rendered string; the caller never sees an array.
\<close>

definition getAdditionTable_raw :: "store \<Rightarrow> Z_ref \<Rightarrow> addr \<times> store" where
  "getAdditionTable_raw s this = cloneDeep s (ref_addition this)"

definition getMultiplyTable_raw :: "store \<Rightarrow> Z_ref \<Rightarrow> addr \<times> store" where
  "getMultiplyTable_raw s this = cloneDeep s (ref_multiply this)"

text \<open>The instance's arrays are all in the store.\<close>

definition ring_in_store :: "store \<Rightarrow> Z_ref \<Rightarrow> bool" where
  "ring_in_store s h =
     (ref_variables h < length s \<and> ref_addition h < length s \<and> ref_multiply h < length s \<and>
      (\<forall>r \<in> set (read_rows s (ref_addition h)). r < length s) \<and>
      (\<forall>r \<in> set (read_rows s (ref_multiply h)). r < length s))"

text \<open>
  What a caller can do to arrays it holds: overwrite one (any element write, \<open>push\<close> or
  \<open>unshift\<close> is such an overwrite) or create one. A caller that received a table at a
  time when the store had \<open>mark\<close> objects holds that table and its rows, all allocated at
  \<open>mark\<close> or later.
\<close>

datatype mutation = Replace addr obj | Allocate obj

fun apply_mutation :: "store \<Rightarrow> mutation \<Rightarrow> store" where
  "apply_mutation s (Replace a ob) = s[a := ob]"
| "apply_mutation s (Allocate ob) = s @ [ob]"

fun mutation_from :: "nat \<Rightarrow> mutation \<Rightarrow> bool" where
  "mutation_from mark (Replace a ob) = (mark \<le> a)"
| "mutation_from mark (Allocate ob) = True"

text \<open>The arrays a table is made of: the array of rows and the rows.\<close>

definition table_addrs :: "store \<Rightarrow> addr \<Rightarrow> addr list" where
  "table_addrs s t = t # read_rows s t"

text \<open>A later store that still has every object of an earlier one unchanged.\<close>

definition extends :: "store \<Rightarrow> store \<Rightarrow> bool" where
  "extends s0 s = (length s0 \<le> length s \<and> take (length s0) s = s0)"

section \<open>Predicates of the proofs\<close>

text \<open>A table of \<open>n\<close> rows of \<open>n\<close> entries each.\<close>

definition square :: "nat \<Rightarrow> matrix \<Rightarrow> bool" where
  "square n M = (length M = n \<and> (\<forall>r < n. length (M ! r) = n))"

text \<open>Primality of the modulus, by trial division.\<close>

definition is_prime :: "int \<Rightarrow> bool" where
  "is_prime p = (1 < p \<and> (\<forall>d \<in> set [2..p - 1]. \<not> d dvd p))"

section \<open>What the loops of operationTable leave in the matrix\<close>

lemma assign_both_square:
  "square n M \<Longrightarrow> i < n \<Longrightarrow> j < n \<Longrightarrow> square n (assign_both M i j v)"
  by (auto simp: square_def assign_both_def Let_def nth_list_update)

lemma assign_both_nth:
  "square n M \<Longrightarrow> i < n \<Longrightarrow> j < n \<Longrightarrow> a < n \<Longrightarrow> b < n \<Longrightarrow>
   assign_both M i j v ! a ! b = (if (a = i \<and> b = j) \<or> (a = j \<and> b = i) then v else M ! a ! b)"
  by (auto simp: square_def assign_both_def Let_def nth_list_update)

lemma inner_square:
  "square n M \<Longrightarrow> i < n \<Longrightarrow> square n (operationTable_inner operation n i j M)"
proof (induction operation n i j M rule: operationTable_inner.induct)
  case (1 operation n i j matrix)
  show ?case
  proof (cases "j < n")
    case True
    then show ?thesis
      using 1 by (subst operationTable_inner.simps) (simp add: assign_both_square)
  next
    case False
    then show ?thesis using 1 by (subst operationTable_inner.simps) simp
  qed
qed

lemma inner_nth:
  "square n M \<Longrightarrow> i < n \<Longrightarrow> i \<le> j \<Longrightarrow> a < n \<Longrightarrow> b < n \<Longrightarrow>
   operationTable_inner operation n i j M ! a ! b =
     (if (a = i \<and> j \<le> b) \<or> (b = i \<and> j \<le> a)
      then operation (Num (int i)) (Num (int (max a b))) else M ! a ! b)"
proof (induction operation n i j M rule: operationTable_inner.induct)
  case (1 operation n i j matrix)
  show ?case
  proof (cases "j < n")
    case True
    let ?M = "assign_both matrix i j (operation (Num (int i)) (Num (int j)))"
    have sq: "square n ?M" using 1 True by (simp add: assign_both_square)
    have "operationTable_inner operation n i j matrix ! a ! b =
          operationTable_inner operation n i (j + 1) ?M ! a ! b"
      using True by (subst operationTable_inner.simps) simp
    also have "\<dots> = (if (a = i \<and> j + 1 \<le> b) \<or> (b = i \<and> j + 1 \<le> a)
      then operation (Num (int i)) (Num (int (max a b))) else ?M ! a ! b)"
      using 1 True sq by simp
    also have "\<dots> = (if (a = i \<and> j \<le> b) \<or> (b = i \<and> j \<le> a)
      then operation (Num (int i)) (Num (int (max a b))) else matrix ! a ! b)"
      using 1 True by (auto simp: assign_both_nth max_def)
    finally show ?thesis .
  next
    case False
    then show ?thesis using 1 by (subst operationTable_inner.simps) auto
  qed
qed

lemma outer_square:
  "square n M \<Longrightarrow> square n (operationTable_outer operation n i M)"
proof (induction operation n i M rule: operationTable_outer.induct)
  case (1 operation n i matrix)
  show ?case
  proof (cases "i < n")
    case True
    then show ?thesis
      using 1 by (subst operationTable_outer.simps) (simp add: inner_square)
  next
    case False
    then show ?thesis using 1 by (subst operationTable_outer.simps) simp
  qed
qed

lemma outer_nth:
  "square n M \<Longrightarrow> a < n \<Longrightarrow> b < n \<Longrightarrow>
   operationTable_outer operation n i M ! a ! b =
     (if i \<le> min a b
      then operation (Num (int (min a b))) (Num (int (max a b))) else M ! a ! b)"
proof (induction operation n i M rule: operationTable_outer.induct)
  case (1 operation n i matrix)
  show ?case
  proof (cases "i < n")
    case True
    let ?M = "operationTable_inner operation n i i matrix"
    have sq: "square n ?M" using 1 True by (simp add: inner_square)
    have "operationTable_outer operation n i matrix ! a ! b =
          operationTable_outer operation n (i + 1) ?M ! a ! b"
      using True by (subst operationTable_outer.simps) simp
    also have "\<dots> = (if i + 1 \<le> min a b
      then operation (Num (int (min a b))) (Num (int (max a b))) else ?M ! a ! b)"
      using 1 True sq by simp
    also have "\<dots> = (if i \<le> min a b
      then operation (Num (int (min a b))) (Num (int (max a b))) else matrix ! a ! b)"
      using 1 True by (cases "a = i"; cases "b = i") (auto simp: inner_nth min_def max_def)
    finally show ?thesis .
  next
    case False
    then show ?thesis using 1 by (subst operationTable_outer.simps) auto
  qed
qed

lemma fill_square: "square n (fillArray n (fillArray n v))"
  by (simp add: square_def fillArray_def)

lemma operationTable_Inr:
  assumes "operationTable vs operation = Inr M"
  shows "vs \<noteq> []" and "square (length vs) M"
    and "a < length vs \<Longrightarrow> b < length vs \<Longrightarrow>
         M ! a ! b = operation (Num (int (min a b))) (Num (int (max a b)))"
  using assms
  by (auto simp: operationTable_def Let_def outer_square fill_square outer_nth split: if_splits)

section \<open>Rings that the constructor returns\<close>

lemma smod_nonneg: "0 \<le> x \<Longrightarrow> 0 < y \<Longrightarrow> (x::int) smod y = x mod y"
  by (simp add: smod_int_alt_def sgn_if)

lemma static_sum_Num:
  "0 < n \<Longrightarrow> 0 \<le> a + b \<Longrightarrow> Z_static_sum (Num n) (Num a) (Num b) = Num ((a + b) mod n)"
  by (simp add: Z_static_sum_def js_rem_def js_add_def smod_nonneg)

lemma static_multiply_Num:
  "0 < n \<Longrightarrow> 0 \<le> a * b \<Longrightarrow> Z_static_multiply (Num n) (Num a) (Num b) = Num ((a * b) mod n)"
  by (simp add: Z_static_multiply_def js_rem_def js_mul_def smod_nonneg)

lemma Z_new_Inr:
  assumes "Z_new vs = Inr z"
  shows "vs \<noteq> []" and "Z_variables z = sort vs" and "Z_n z = length vs"
    and "operationTable (sort vs) (Z_static_sum (Num (int (length vs)))) = Inr (Z_table_addition z)"
    and "operationTable (sort vs) (Z_static_multiply (Num (int (length vs)))) = Inr (Z_table_multiply z)"
  using assms
  by (auto simp: Z_new_def Let_def split: if_splits sum.splits)

lemma sort_not_Nil: "vs \<noteq> [] \<Longrightarrow> sort vs \<noteq> ([]::int list)"
  using length_sort[of "\<lambda>x. x" vs] by (cases "sort vs") auto

lemma Z_new_total: "vs \<noteq> [] \<Longrightarrow> \<exists>z. Z_new vs = Inr z"
  by (auto simp: Z_new_def Let_def operationTable_def sort_not_Nil split: sum.splits)

lemma Z_new_square:
  assumes "Z_new vs = Inr z"
  shows "square (Z_n z) (Z_table_addition z)" and "square (Z_n z) (Z_table_multiply z)"
  using Z_new_Inr[OF assms] operationTable_Inr(2)[of "sort vs"] by auto

lemma Z_new_addition_nth:
  assumes "Z_new vs = Inr z" "a < Z_n z" "b < Z_n z"
  shows "Z_table_addition z ! a ! b = Num (int ((a + b) mod Z_n z))"
proof -
  have n: "Z_n z = length vs" "0 < length vs" using Z_new_Inr[OF assms(1)] by auto
  have "Z_table_addition z ! a ! b =
        Z_static_sum (Num (int (length vs))) (Num (int (min a b))) (Num (int (max a b)))"
    using operationTable_Inr(3)[OF Z_new_Inr(4)[OF assms(1)], of a b] assms n by simp
  also have "\<dots> = Num ((int (min a b) + int (max a b)) mod int (length vs))"
    using n by (intro static_sum_Num) auto
  also have "int (min a b) + int (max a b) = int (a + b)" by (simp add: min_def max_def)
  finally show ?thesis using n by (simp add: zmod_int)
qed

lemma Z_new_multiply_nth:
  assumes "Z_new vs = Inr z" "a < Z_n z" "b < Z_n z"
  shows "Z_table_multiply z ! a ! b = Num (int ((a * b) mod Z_n z))"
proof -
  have n: "Z_n z = length vs" "0 < length vs" using Z_new_Inr[OF assms(1)] by auto
  have "Z_table_multiply z ! a ! b =
        Z_static_multiply (Num (int (length vs))) (Num (int (min a b))) (Num (int (max a b)))"
    using operationTable_Inr(3)[OF Z_new_Inr(5)[OF assms(1)], of a b] assms n by simp
  also have "\<dots> = Num ((int (min a b) * int (max a b)) mod int (length vs))"
    using n by (intro static_multiply_Num) auto
  also have "int (min a b) * int (max a b) = int (a * b)" by (simp add: min_def max_def mult.commute)
  finally show ?thesis using n by (simp add: zmod_int)
qed

lemma createIncreasingArray_loop_upto:
  "createIncreasingArray_loop i to arr = arr @ [i..to]"
proof (induction i to arr rule: createIncreasingArray_loop.induct)
  case (1 i to arr)
  show ?case
  proof (cases "i \<le> to")
    case True
    then show ?thesis
      using 1 by (subst createIncreasingArray_loop.simps) (simp add: upto_rec1)
  next
    case False
    then show ?thesis by (subst createIncreasingArray_loop.simps) simp
  qed
qed

lemma createIncreasingArray_upto: "createIncreasingArray from to = [from..to]"
  by (simp add: createIncreasingArray_def createIncreasingArray_loop_upto)

lemma createFromN_Inr:
  assumes "createFromN n = Inr z"
  shows "0 < n" and "Z_variables z = [0..n - 1]" and "Z_n z = nat n"
    and "Z_new [0..n - 1] = Inr z"
proof -
  have z: "Z_new [0..n - 1] = Inr z"
    using assms by (simp add: createFromN_def createIncreasingArray_upto)
  show "Z_new [0..n - 1] = Inr z" by fact
  have ne: "[0..n - 1] \<noteq> []" using Z_new_Inr(1)[OF z] .
  then show "0 < n" by (cases "0 < n") auto
  then show "Z_n z = nat n" using Z_new_Inr(3)[OF z] by simp
  show "Z_variables z = [0..n - 1]"
    using Z_new_Inr(2)[OF z] by (simp add: sorted_sort_id)
qed

lemma createFromN_total: "0 < n \<Longrightarrow> \<exists>z. createFromN n = Inr z"
  unfolding createFromN_def createIncreasingArray_upto
  by (rule Z_new_total) (simp add: upto_rec1)

section \<open>findIndex and indexOf\<close>

lemma findIndex_ge: "- 1 \<le> findIndex P xs"
  by (induction xs) (auto simp: Let_def)

lemma findIndex_none: "(findIndex P xs = - 1) = (\<forall>x \<in> set xs. \<not> P x)"
proof (induction xs)
  case Nil
  then show ?case by simp
next
  case (Cons x xs)
  have "- 1 \<le> findIndex P xs" by (rule findIndex_ge)
  then show ?case using Cons by (auto simp: Let_def)
qed

lemma findIndex_found:
  assumes "findIndex P xs \<noteq> - 1"
  shows "0 \<le> findIndex P xs" and "findIndex P xs < int (length xs)"
    and "P (xs ! nat (findIndex P xs))"
    and "k < nat (findIndex P xs) \<Longrightarrow> \<not> P (xs ! k)"
  using assms
proof (induction xs arbitrary: k)
  case Nil
  {
    case 1 then show ?case by simp
  next
    case 2 then show ?case by simp
  next
    case 3 then show ?case by simp
  next
    case 4 then show ?case by simp
  }
next
  case (Cons x xs)
  have ge: "- 1 \<le> findIndex P xs" by (rule findIndex_ge)
  {
    case 1
    then show ?case using ge by (auto simp: Let_def split: if_splits)
  next
    case 2
    then show ?case using Cons.IH(2) by (auto simp: Let_def split: if_splits)
  next
    case 3
    show ?case
    proof (cases "P x")
      case True
      then show ?thesis by simp
    next
      case False
      then have ne: "findIndex P xs \<noteq> - 1" using 3 by (auto simp: Let_def split: if_splits)
      have "0 \<le> findIndex P xs" using Cons.IH(1)[OF ne] .
      then have "nat (findIndex P xs + 1) = Suc (nat (findIndex P xs))" by simp
      then show ?thesis using False ne Cons.IH(3)[OF ne] by (simp add: Let_def)
    qed
  next
    case 4
    show ?case
    proof (cases "P x")
      case True
      then show ?thesis using 4 by simp
    next
      case False
      then have ne: "findIndex P xs \<noteq> - 1" using 4 by (auto simp: Let_def split: if_splits)
      have "0 \<le> findIndex P xs" using Cons.IH(1)[OF ne] .
      then have eq: "nat (findIndex P (x # xs)) = Suc (nat (findIndex P xs))"
        using False ne by (simp add: Let_def)
      show ?thesis
      proof (cases k)
        case 0
        then show ?thesis using False by simp
      next
        case (Suc k')
        then have "k' < nat (findIndex P xs)" using 4(1) eq by simp
        then show ?thesis using Cons.IH(4)[OF _ ne] Suc by simp
      qed
    qed
  }
qed

lemma findIndex_first:
  assumes "i < length xs" and "P (xs ! i)" and "\<And>k. k < i \<Longrightarrow> \<not> P (xs ! k)"
  shows "findIndex P xs = int i"
proof -
  have ne: "findIndex P xs \<noteq> - 1"
    using assms(1,2) by (auto simp: findIndex_none)
  note f = findIndex_found[OF ne]
  have "\<not> nat (findIndex P xs) < i" using f(3) assms(3) by blast
  moreover have "\<not> i < nat (findIndex P xs)" using f(4) assms(2) by blast
  ultimately have "nat (findIndex P xs) = i" by simp
  then show ?thesis using f(1) by simp
qed

lemma indexOf_member:
  assumes "k \<in> set xs"
  shows "0 \<le> indexOf xs (Num k)" and "indexOf xs (Num k) < int (length xs)"
    and "xs ! nat (indexOf xs (Num k)) = k"
proof -
  have ne: "findIndex (\<lambda>x. strict_eq (Num x) (Num k)) xs \<noteq> - 1"
    using assms by (auto simp: findIndex_none)
  note f = findIndex_found[OF ne]
  show "0 \<le> indexOf xs (Num k)" "indexOf xs (Num k) < int (length xs)"
    using f(1,2) by (simp_all add: indexOf_def)
  show "xs ! nat (indexOf xs (Num k)) = k" using f(3) by (simp add: indexOf_def)
qed

lemma indexOf_upto:
  assumes "0 \<le> k" and "k \<le> m"
  shows "indexOf [0..m] (Num k) = k"
proof -
  have "findIndex (\<lambda>x. strict_eq (Num x) (Num k)) [0..m] = int (nat k)"
    using assms by (intro findIndex_first) auto
  then show ?thesis using assms by (simp add: indexOf_def)
qed

lemma row_at_member:
  assumes "Z_new vs = Inr z" and "k \<in> set (Z_variables z)"
  shows "row_at (Z_table_addition z) (indexOf (Z_variables z) (Num k)) \<noteq> None"
    and "row_at (Z_table_multiply z) (indexOf (Z_variables z) (Num k)) \<noteq> None"
proof -
  note i = indexOf_member[OF assms(2)]
  have "length (Z_variables z) = Z_n z" using Z_new_Inr(2,3)[OF assms(1)] by simp
  then have "indexOf (Z_variables z) (Num k) < int (Z_n z)" using i(2) by simp
  then show "row_at (Z_table_addition z) (indexOf (Z_variables z) (Num k)) \<noteq> None"
    and "row_at (Z_table_multiply z) (indexOf (Z_variables z) (Num k)) \<noteq> None"
    using Z_new_square[OF assms(1)] i(1) by (simp_all add: square_def row_at_def)
qed

section \<open>Lookups in the canonical ring\<close>

text \<open>In a ring built by \<open>createFromN\<close> the representative at index \<open>i\<close> is \<open>i\<close>
  itself, so a table row read at an index is the row of that representative.\<close>

lemma canonical_ops:
  assumes "createFromN n = Inr z" and "0 \<le> a" and "0 \<le> b"
  shows "Z_sum z (Num a) (Num b) = Num ((a + b) mod n)"
    and "Z_multiply z (Num a) (Num b) = Num ((a * b) mod n)"
proof -
  note z = createFromN_Inr[OF assms(1)]
  have n: "int (Z_n z) = n" using z(1,3) by simp
  show "Z_sum z (Num a) (Num b) = Num ((a + b) mod n)"
    using assms(2,3) z(1) by (simp add: Z_sum_def n static_sum_Num)
  show "Z_multiply z (Num a) (Num b) = Num ((a * b) mod n)"
    using assms(2,3) z(1) by (simp add: Z_multiply_def n static_multiply_Num)
qed

lemma canonical_member: 
  assumes "createFromN n = Inr z"
  shows "(x \<in> set (Z_variables z)) = (0 \<le> x \<and> x < n)"
  using createFromN_Inr(2)[OF assms] by auto

lemma canonical_rows:
  assumes "createFromN n = Inr z" and "0 \<le> x" and "x < n" and "0 \<le> y" and "y < n"
  shows "Z_table_addition z ! nat x ! nat y = Num ((x + y) mod n)"
    and "Z_table_multiply z ! nat x ! nat y = Num ((x * y) mod n)"
    and "length (Z_table_addition z ! nat x) = nat n"
    and "length (Z_table_multiply z ! nat x) = nat n"
    and "row_at (Z_table_addition z) x = Some (Z_table_addition z ! nat x)"
    and "row_at (Z_table_multiply z) x = Some (Z_table_multiply z ! nat x)"
proof -
  note z = createFromN_Inr[OF assms(1)]
  have lt: "nat x < Z_n z" "nat y < Z_n z" using assms z(3) by auto
  have "Z_table_addition z ! nat x ! nat y = Num (int ((nat x + nat y) mod nat n))"
    using Z_new_addition_nth[OF z(4) lt] z(3) by simp
  also have "int ((nat x + nat y) mod nat n) = (x + y) mod n"
    using assms by (simp add: zmod_int)
  finally show "Z_table_addition z ! nat x ! nat y = Num ((x + y) mod n)" .
  have "Z_table_multiply z ! nat x ! nat y = Num (int ((nat x * nat y) mod nat n))"
    using Z_new_multiply_nth[OF z(4) lt] z(3) by simp
  also have "int ((nat x * nat y) mod nat n) = (x * y) mod n"
    using assms by (simp add: zmod_int)
  finally show "Z_table_multiply z ! nat x ! nat y = Num ((x * y) mod n)" .
  show "length (Z_table_addition z ! nat x) = nat n" "length (Z_table_multiply z ! nat x) = nat n"
    using Z_new_square[OF z(4)] lt z(3) by (simp_all add: square_def)
  show "row_at (Z_table_addition z) x = Some (Z_table_addition z ! nat x)"
    "row_at (Z_table_multiply z) x = Some (Z_table_multiply z ! nat x)"
    using Z_new_square[OF z(4)] assms(2,3) z(3) by (simp_all add: square_def row_at_def)
qed

lemma canonical_at_index:
  assumes "createFromN n = Inr z" and "0 \<le> r" and "r < n"
  shows "at_index (Z_variables z) r = Num r"
  using assms createFromN_Inr(2)[OF assms(1)] by (simp add: at_index_def)

lemma canonical_indexOf:
  assumes "createFromN n = Inr z" and "0 \<le> x" and "x < n"
  shows "indexOf (Z_variables z) (Num x) = x"
  using assms createFromN_Inr(2)[OF assms(1)] by (simp add: indexOf_upto)

lemma canonical_findInverseVariable:
  assumes "createFromN n = Inr z" and "x \<in> set (Z_variables z)" and "x \<noteq> 0"
  shows "(\<exists>y. findInverseVariable z (Num x) = Inr (Num y) \<and> y \<in> set (Z_variables z) \<and>
              Z_multiply z (Num x) (Num y) = Num 1) \<or>
         (findInverseVariable z (Num x) = Inr Undefined \<and>
          (\<forall>y \<in> set (Z_variables z). Z_multiply z (Num x) (Num y) \<noteq> Num 1))"
proof -
  have x: "0 \<le> x" "x < n" using assms(2) canonical_member[OF assms(1)] by auto
  let ?row = "Z_table_multiply z ! nat x"
  let ?P = "\<lambda>multiplyResult. strict_eq multiplyResult (Num 1)"
  let ?r = "findIndex ?P ?row"
  have len: "length ?row = nat n" using canonical_rows(4)[OF assms(1) x x] .
  have row: "\<And>y. 0 \<le> y \<Longrightarrow> y < n \<Longrightarrow> ?row ! nat y = Num ((x * y) mod n)"
    using canonical_rows(2)[OF assms(1) x] .
  have call: "findInverseVariable z (Num x) =
              Inr (if ?r = - 1 then Undefined else at_index (Z_variables z) ?r)"
    using assms(2,3) x
    by (simp add: findInverseVariable_def canonical_indexOf[OF assms(1) x]
        canonical_rows(6)[OF assms(1) x x] Let_def)
  show ?thesis
  proof (cases "?r = - 1")
    case True
    have "\<forall>y \<in> set (Z_variables z). Z_multiply z (Num x) (Num y) \<noteq> Num 1"
    proof
      fix y assume "y \<in> set (Z_variables z)"
      then have y: "0 \<le> y" "y < n" using canonical_member[OF assms(1)] by auto
      then have "nat y < length ?row" using len by simp
      then have "?row ! nat y \<in> set ?row" by simp
      then have "\<not> ?P (?row ! nat y)" using True by (simp add: findIndex_none)
      then have "(x * y) mod n \<noteq> 1" using row[OF y] by simp
      then show "Z_multiply z (Num x) (Num y) \<noteq> Num 1"
        using canonical_ops(2)[OF assms(1) x(1) y(1)] by simp
    qed
    then show ?thesis using True call by simp
  next
    case False
    note f = findIndex_found[OF False]
    have r: "0 \<le> ?r" "?r < n" using f(1,2) len x by auto
    have "?P (?row ! nat ?r)" using f(3) .
    then have "(x * ?r) mod n = 1" using row[OF r] by simp
    then have "Z_multiply z (Num x) (Num ?r) = Num 1"
      using canonical_ops(2)[OF assms(1) x(1) r(1)] by simp
    moreover have "findInverseVariable z (Num x) = Inr (Num ?r)"
      using call False canonical_at_index[OF assms(1) r] by simp
    moreover have "?r \<in> set (Z_variables z)" using r canonical_member[OF assms(1)] by simp
    ultimately show ?thesis by blast
  qed
qed

lemma canonical_findAdditiveInverseVariable:
  assumes "createFromN n = Inr z" and "x \<in> set (Z_variables z)"
  shows "findAdditiveInverseVariable z (Num x) = Inr (Num ((n - x) mod n))"
    and "Z_sum z (Num x) (Num ((n - x) mod n)) = Num 0"
    and "(n - x) mod n \<in> set (Z_variables z)"
proof -
  have x: "0 \<le> x" "x < n" using assms(2) canonical_member[OF assms(1)] by auto
  let ?row = "Z_table_addition z ! nat x"
  let ?P = "\<lambda>multiplyResult. strict_eq multiplyResult (Num 0)"
  let ?y = "(n - x) mod n"
  have y: "0 \<le> ?y" "?y < n" using x by simp_all
  have len: "length ?row = nat n" using canonical_rows(3)[OF assms(1) x x] .
  have row: "\<And>y. 0 \<le> y \<Longrightarrow> y < n \<Longrightarrow> ?row ! nat y = Num ((x + y) mod n)"
    using canonical_rows(1)[OF assms(1) x] .
  have zero: "(x + ?y) mod n = 0" by (simp add: mod_add_right_eq)
  have first: "\<not> ?P (?row ! k)" if "k < nat ?y" for k
  proof -
    have k: "0 \<le> int k" "int k < n" using that y by auto
    have "x \<noteq> 0" using that by auto
    then have "?y = n - x" using x by (intro mod_pos_pos_trivial) auto
    then have "0 < x + int k" "x + int k < n" using that x \<open>x \<noteq> 0\<close> by auto
    then have "(x + int k) mod n \<noteq> 0" by simp
    then show ?thesis using row[OF k] by simp
  qed
  have "findIndex ?P ?row = int (nat ?y)"
  proof (rule findIndex_first)
    show "nat ?y < length ?row" using y len by simp
    show "?P (?row ! nat ?y)" using row[OF y] zero by simp
    show "\<And>k. k < nat ?y \<Longrightarrow> \<not> ?P (?row ! k)" using first .
  qed
  then have r: "findIndex ?P ?row = ?y" using y by simp
  have "?y \<noteq> - 1" using y by simp
  then show "findAdditiveInverseVariable z (Num x) = Inr (Num ?y)"
    using assms(2) x r canonical_at_index[OF assms(1) y]
    by (simp add: findAdditiveInverseVariable_def canonical_indexOf[OF assms(1) x]
        canonical_rows(5)[OF assms(1) x x] Let_def)
  show "Z_sum z (Num x) (Num ?y) = Num 0"
    using canonical_ops(1)[OF assms(1) x(1) y(1)] zero by simp
  show "?y \<in> set (Z_variables z)" using y canonical_member[OF assms(1)] by simp
qed

section \<open>Prime and composite moduli\<close>

lemma prime_coprime:
  assumes "is_prime p" and "0 < x" and "x < p"
  shows "gcd x p = 1"
proof -
  let ?g = "gcd x p"
  have g: "?g dvd p" "?g dvd x" by simp_all
  have pos: "0 < ?g" using assms(2) by (simp add: gcd_pos_int)
  have "?g \<le> x" using g(2) assms(2) by (rule_tac zdvd_imp_le) auto
  then have "?g < p" using assms(3) by simp
  show ?thesis
  proof (rule ccontr)
    assume "?g \<noteq> 1"
    then have "2 \<le> ?g" using pos by linarith
    then have "?g \<in> set [2..p - 1]" using \<open>?g < p\<close> by simp
    then show False using assms(1) g(1) by (auto simp: is_prime_def)
  qed
qed

lemma prime_inverse_exists:
  assumes "is_prime p" and "0 < x" and "x < p"
  shows "\<exists>y. 0 \<le> y \<and> y < p \<and> (x * y) mod p = 1"
proof -
  have p: "1 < p" using assms(1) by (simp add: is_prime_def)
  obtain u v where "u * x + v * p = gcd x p" using bezout_int by blast
  then have uv: "u * x + v * p = 1" using prime_coprime[OF assms] by simp
  have "(x * (u mod p)) mod p = (x * u) mod p" by (simp add: mod_mult_right_eq)
  also have "\<dots> = (u * x + v * p) mod p" by (simp add: mult.commute)
  also have "\<dots> = 1" using uv p by simp
  finally have "(x * (u mod p)) mod p = 1" .
  moreover have "0 \<le> u mod p" "u mod p < p" using p by simp_all
  ultimately show ?thesis by blast
qed

lemma prime_findInverseVariable:
  assumes "createFromN p = Inr z" and "is_prime p"
    and "x \<in> set (Z_variables z)" and "x \<noteq> 0"
  shows "\<exists>y. findInverseVariable z (Num x) = Inr (Num y) \<and> y \<in> set (Z_variables z) \<and>
             Z_multiply z (Num x) (Num y) = Num 1"
proof -
  have x: "0 < x" "x < p" using assms(3,4) canonical_member[OF assms(1)] by auto
  obtain y where y: "0 \<le> y" "y < p" "(x * y) mod p = 1"
    using prime_inverse_exists[OF assms(2) x] by blast
  have "y \<in> set (Z_variables z)" using y canonical_member[OF assms(1)] by simp
  moreover have "Z_multiply z (Num x) (Num y) = Num 1"
    using canonical_ops(2)[OF assms(1), of x y] x y by simp
  ultimately show ?thesis
    using canonical_findInverseVariable[OF assms(1,3,4)] by blast
qed

lemma composite_findInverseVariable:
  assumes "createFromN (a * b) = Inr z" and "1 < a" and "1 < b"
  shows "a \<in> set (Z_variables z)" and "findInverseVariable z (Num a) = Inr Undefined"
proof -
  have lt: "a < a * b" using assms(2,3) by simp
  show a: "a \<in> set (Z_variables z)" using canonical_member[OF assms(1)] assms(2) lt by simp
  have "Z_multiply z (Num a) (Num y) \<noteq> Num 1" if "y \<in> set (Z_variables z)" for y
  proof
    assume m: "Z_multiply z (Num a) (Num y) = Num 1"
    have y: "0 \<le> y" using that canonical_member[OF assms(1)] by simp
    have "(a * y) mod (a * b) = 1"
      using canonical_ops(2)[OF assms(1), of a y] assms(2) y m by simp
    moreover have "a dvd (a * y) mod (a * b)" by (simp add: dvd_mod)
    ultimately have "a dvd 1" by simp
    then show False using assms(2) by simp
  qed
  then show "findInverseVariable z (Num a) = Inr Undefined"
    using canonical_findInverseVariable[OF assms(1) a] assms(2) by auto
qed

section \<open>Allocation, copies and later stores\<close>

lemma extends_refl: "extends s s"
  by (simp add: extends_def)

lemma extends_trans:
  assumes "extends a b" and "extends b c"
  shows "extends a c"
proof -
  have le: "length a \<le> length b" "length b \<le> length c"
    and tk: "take (length a) b = a" "take (length b) c = b"
    using assms by (simp_all add: extends_def)
  have "take (length a) (take (length b) c) = take (length a) c"
    using le(1) by (simp add: min_def)
  then have "take (length a) c = a" using tk by simp
  then show ?thesis using le by (simp add: extends_def)
qed

lemma extends_nth:
  assumes "extends s0 s" and "a < length s0"
  shows "s ! a = s0 ! a \<and> a < length s"
proof -
  have le: "length s0 \<le> length s" and tk: "take (length s0) s = s0"
    using assms(1) by (simp_all add: extends_def)
  have "take (length s0) s ! a = s ! a" using assms(2) by (rule nth_take)
  then show ?thesis using tk le assms(2) by simp
qed

lemma extends_alloc: "alloc s ob = (a, s') \<Longrightarrow> extends s s' \<and> a = length s \<and> length s' = Suc (length s)"
  by (auto simp: alloc_def extends_def)

lemma extends_reads:
  assumes "extends s0 s" and "a < length s0"
  shows "read_ints s a = read_ints s0 a" and "read_numbers s a = read_numbers s0 a"
    and "read_rows s a = read_rows s0 a"
  using extends_nth[OF assms] assms(2)
  by (simp_all add: read_ints_def read_numbers_def read_rows_def)

lemma extends_read_matrix:
  assumes "extends s0 s" and "a < length s0" and "\<forall>r \<in> set (read_rows s0 a). r < length s0"
  shows "read_matrix s a = read_matrix s0 a"
  using assms by (simp add: read_matrix_def extends_reads)

lemma extends_view:
  assumes "ring_in_store s0 h" and "extends s0 s"
  shows "view s h = view s0 h" and "ring_in_store s h"
proof -
  show "view s h = view s0 h"
    using assms by (simp add: view_def ring_in_store_def extends_read_matrix extends_reads)
  have "length s0 \<le> length s" using assms(2) by (simp add: extends_def)
  then show "ring_in_store s h"
    using assms by (auto simp: ring_in_store_def extends_reads)
qed

lemma alloc_rows_spec:
  "alloc_rows s M = (rs, s') \<Longrightarrow>
     extends s s' \<and> length s' = length s + length M \<and>
     (\<forall>r \<in> set rs. length s \<le> r \<and> r < length s') \<and> map (read_numbers s') rs = M"
proof (induction M arbitrary: s rs s')
  case Nil
  then show ?case by (simp add: extends_refl)
next
  case (Cons row rows)
  obtain as s2 where rec: "alloc_rows (s @ [Numbers row]) rows = (as, s2)"
    by (cases "alloc_rows (s @ [Numbers row]) rows")
  then have res: "rs = length s # as" "s' = s2"
    using Cons.prems by (simp_all add: alloc_def)
  note ih = Cons.IH[OF rec]
  have e1: "extends s (s @ [Numbers row])" by (simp add: extends_def)
  have ext: "extends s s'" using e1 ih res extends_trans by blast
  have here: "read_numbers s' (length s) = row"
    using extends_reads(2)[of "s @ [Numbers row]" s2 "length s"] ih res
    by (simp add: read_numbers_def)
  show ?case using ih res ext here by auto
qed

lemma alloc_matrix_spec:
  assumes "alloc_matrix s M = (t, s')"
  shows "extends s s'" and "length s \<le> t" and "length s' = Suc t"
    and "\<forall>r \<in> set (read_rows s' t). length s \<le> r \<and> r < length s'"
    and "read_matrix s' t = M"
proof -
  obtain rs s1 where r: "alloc_rows s M = (rs, s1)" by (cases "alloc_rows s M")
  note a = alloc_rows_spec[OF r]
  have t: "t = length s1" "s' = s1 @ [Rows rs]"
    using assms r by (auto simp: alloc_matrix_def alloc_def)
  have e: "extends s1 s'" using t by (simp add: extends_def)
  show "extends s s'" using a e extends_trans by blast
  show "length s \<le> t" using t a by simp
  show "length s' = Suc t" using t by simp
  have "s' ! t = Rows rs" unfolding t by (rule nth_append_length)
  then have rows: "read_rows s' t = rs" using t by (simp add: read_rows_def)
  then show "\<forall>r \<in> set (read_rows s' t). length s \<le> r \<and> r < length s'"
    using a t by auto
  have "map (read_numbers s') rs = map (read_numbers s1) rs"
    using a e by (intro map_cong) (auto simp: extends_reads)
  then show "read_matrix s' t = M" using rows a by (simp add: read_matrix_def)
qed

lemma mutation_extends:
  "extends s0 s \<Longrightarrow> mutation_from (length s0) m \<Longrightarrow> extends s0 (apply_mutation s m)"
  by (cases m) (auto simp: extends_def)

lemma mutations_extend:
  "extends s0 s \<Longrightarrow> \<forall>m \<in> set ms. mutation_from (length s0) m \<Longrightarrow>
   extends s0 (foldl apply_mutation s ms)"
  by (induction ms arbitrary: s) (auto simp: mutation_extends)

lemma cloneDeep_spec:
  assumes "cloneDeep s a = (t, s')"
  shows "extends s s'" and "read_matrix s' t = read_matrix s a"
    and "\<forall>r \<in> set (table_addrs s' t). length s \<le> r \<and> r < length s'"
  using alloc_matrix_spec[of s "read_matrix s a" t s'] assms
  by (auto simp: cloneDeep_def table_addrs_def)

lemma Z_construct_Inl: "Z_construct s variables = (Inl e, s') \<Longrightarrow> s' = s"
  by (auto simp: Z_construct_def Let_def split: sum.splits prod.splits)

lemma Z_construct_Inr:
  assumes "Z_construct s variables = (Inr h, s')"
  shows "Z_new (read_ints s variables) = Inr (view s' h)" and "ring_in_store s' h"
proof -
  obtain z where z: "Z_new (read_ints s variables) = Inr z"
    using assms by (cases "Z_new (read_ints s variables)") (auto simp: Z_construct_def)
  let ?s1 = "s[variables := Ints (Z_variables z)]"
  obtain a s2 where a: "alloc_matrix ?s1 (Z_table_addition z) = (a, s2)"
    by (cases "alloc_matrix ?s1 (Z_table_addition z)")
  obtain m s3 where m: "alloc_matrix s2 (Z_table_multiply z) = (m, s3)"
    by (cases "alloc_matrix s2 (Z_table_multiply z)")
  have h: "h = \<lparr>ref_addition = a, ref_multiply = m, ref_variables = variables, ref_n = Z_n z\<rparr>"
    and s': "s' = s3"
    using assms z a m by (simp_all add: Z_construct_def)
  note A = alloc_matrix_spec[OF a]
  note M = alloc_matrix_spec[OF m]
  have "read_ints s variables \<noteq> []" using Z_new_Inr(1)[OF z] .
  then have v: "variables < length ?s1"
    by (cases "variables < length s") (simp_all add: read_ints_def)
  have e13: "extends ?s1 s3" using A(1) M(1) extends_trans by blast
  have a2: "a < length s2" using A(3) by simp
  have rows_a: "\<forall>r \<in> set (read_rows s2 a). r < length s2" using A(4) by simp
  have "read_ints s3 variables = read_ints ?s1 variables" using extends_reads(1)[OF e13 v] .
  then have vars: "read_ints s3 variables = Z_variables z" using v by (simp add: read_ints_def)
  have add: "read_matrix s3 a = Z_table_addition z"
    using extends_read_matrix[OF M(1) a2 rows_a] A(5) by simp
  have mul: "read_matrix s3 m = Z_table_multiply z" using M(5) .
  show "Z_new (read_ints s variables) = Inr (view s' h)"
    using z add mul vars by (simp add: view_def h s')
  have "length ?s1 \<le> length s3" using e13 by (simp add: extends_def)
  moreover have "length s2 \<le> length s3" using M(1) by (simp add: extends_def)
  moreover have "read_rows s3 a = read_rows s2 a" using extends_reads(3)[OF M(1) a2] .
  ultimately show "ring_in_store s' h"
    using v a2 rows_a M(3,4) by (auto simp: ring_in_store_def h s')
qed

lemma table_copy_detached:
  assumes "ring_in_store s h" and "a < length s" and "cloneDeep s a = (t, s')"
    and "\<forall>m \<in> set ms. mutation_from (length s) m"
  shows "read_matrix s' t = read_matrix s a"
    and "\<forall>r \<in> set (table_addrs s' t). length s \<le> r \<and> r < length s'"
    and "view (foldl apply_mutation s' ms) h = view s h"
    and "ring_in_store (foldl apply_mutation s' ms) h"
proof -
  note c = cloneDeep_spec[OF assms(3)]
  show "read_matrix s' t = read_matrix s a" using c(2) .
  show "\<forall>r \<in> set (table_addrs s' t). length s \<le> r \<and> r < length s'" using c(3) .
  have e: "extends s (foldl apply_mutation s' ms)"
    using mutations_extend[OF c(1) assms(4)] .
  show "view (foldl apply_mutation s' ms) h = view s h"
    and "ring_in_store (foldl apply_mutation s' ms) h"
    using extends_view[OF assms(1) e] .
qed

section \<open>Elements of a ring\<close>

lemma getFVar_projr:
  "\<not> loose_eq_null v \<Longrightarrow> projr (getFVar z v) = \<lparr>FVar_field = Z_field z, FVar_value = v\<rparr>"
  by (simp add: getFVar_def FVar_new_def)

section \<open>Arithmetic of the canonical ring\<close>

text \<open>
  Claim C2. In a ring built by \<open>createFromN n\<close>, for all representatives \<open>a\<close> and \<open>b\<close>,
  \<open>sum(a, b)\<close> is \<open>(a + b) mod n\<close> and \<open>multiply(a, b)\<close> is \<open>(a * b) mod n\<close>. The
  instance \<open>n = 7\<close>, \<open>a = b = 5\<close> gives 3 and 4.
\<close>

theorem createFromN_sum_multiply:
  assumes "createFromN n = Inr z"
    and "a \<in> set (Z_variables z)" and "b \<in> set (Z_variables z)"
  shows "Z_sum z (Num a) (Num b) = Num ((a + b) mod n) \<and>
         Z_multiply z (Num a) (Num b) = Num ((a * b) mod n)"
proof -
  note z = createFromN_Inr[OF assms(1)]
  have ab: "0 \<le> a" "0 \<le> b" using assms(2,3) z(2) by auto
  have n: "int (Z_n z) = n" using z(1,3) by simp
  show ?thesis
    using ab z(1) by (simp add: Z_sum_def Z_multiply_def n static_sum_Num static_multiply_Num)
qed

theorem createFromN_sum_multiply_witness:
  "createFromN 7 = Inr (projr (createFromN 7)) \<and>
   5 \<in> set (Z_variables (projr (createFromN 7))) \<and>
   Z_sum (projr (createFromN 7)) (Num 5) (Num 5) = Num 3 \<and>
   Z_multiply (projr (createFromN 7)) (Num 5) (Num 5) = Num 4"
proof -
  have h1: "createFromN 7 = Inr (projr (createFromN 7))"
    using createFromN_total[of 7] by auto
  have h2: "5 \<in> set (Z_variables (projr (createFromN 7)))"
    by code_simp
  show ?thesis
    using h1 h2 createFromN_sum_multiply[OF h1 h2 h2] by simp
qed

section \<open>The cached tables\<close>

text \<open>
  Claim C4. In every ring the constructor returns, the addition table and the
  multiplication table are \<open>size \<times> size\<close> and symmetric: the entries at \<open>[i][j]\<close> and
  \<open>[j][i]\<close> are equal for all indices below \<open>size\<close>.
\<close>

theorem tables_symmetric:
  assumes "Z_new vs = Inr z" and "i < Z_n z" and "j < Z_n z"
  shows "length (Z_table_addition z) = Z_n z \<and> length (Z_table_multiply z) = Z_n z \<and>
         length (Z_table_addition z ! i) = Z_n z \<and> length (Z_table_multiply z ! i) = Z_n z \<and>
         Z_table_addition z ! i ! j = Z_table_addition z ! j ! i \<and>
         Z_table_multiply z ! i ! j = Z_table_multiply z ! j ! i"
  using Z_new_square[OF assms(1)] assms(2,3)
    Z_new_addition_nth[OF assms(1), of i j] Z_new_addition_nth[OF assms(1), of j i]
    Z_new_multiply_nth[OF assms(1), of i j] Z_new_multiply_nth[OF assms(1), of j i]
  by (simp add: square_def add.commute mult.commute)

theorem tables_symmetric_witness:
  "Z_new [9, 3, 7, 4] = Inr (projr (Z_new [9, 3, 7, 4])) \<and>
   (1::nat) < Z_n (projr (Z_new [9, 3, 7, 4])) \<and> (3::nat) < Z_n (projr (Z_new [9, 3, 7, 4])) \<and>
   Z_table_addition (projr (Z_new [9, 3, 7, 4])) ! 1 ! 3 = Num 0 \<and>
   Z_table_addition (projr (Z_new [9, 3, 7, 4])) ! 3 ! 1 = Num 0 \<and>
   Z_table_multiply (projr (Z_new [9, 3, 7, 4])) ! 1 ! 3 = Num 3 \<and>
   Z_table_multiply (projr (Z_new [9, 3, 7, 4])) ! 3 ! 1 = Num 3"
proof -
  have h1: "Z_new [9, 3, 7, 4] = Inr (projr (Z_new [9, 3, 7, 4]))"
    using Z_new_total[of "[9, 3, 7, 4]"] by auto
  have h2: "(1::nat) < Z_n (projr (Z_new [9, 3, 7, 4]))"
    and h3: "(3::nat) < Z_n (projr (Z_new [9, 3, 7, 4]))"
    by code_simp+
  have v: "Z_table_addition (projr (Z_new [9, 3, 7, 4])) ! 1 ! 3 = Num 0"
    "Z_table_multiply (projr (Z_new [9, 3, 7, 4])) ! 1 ! 3 = Num 3"
    by code_simp+
  show ?thesis
    using h1 h2 h3 v tables_symmetric[OF h1 h2 h3] by simp
qed

text \<open>
  Claim C9. In every ring the constructor returns, whatever its representatives, every
  entry of both tables is a number between \<open>0\<close> and \<open>size - 1\<close>: it is the operation on
  the two indices, reduced modulo \<open>size\<close>.
\<close>

theorem table_entries_in_range:
  assumes "Z_new vs = Inr z" and "i < Z_n z" and "j < Z_n z"
  shows "(\<exists>k. Z_table_addition z ! i ! j = Num k \<and> 0 \<le> k \<and> k \<le> int (Z_n z) - 1) \<and>
         (\<exists>k. Z_table_multiply z ! i ! j = Num k \<and> 0 \<le> k \<and> k \<le> int (Z_n z) - 1) \<and>
         Z_table_addition z ! i ! j = Num (int ((i + j) mod Z_n z)) \<and>
         Z_table_multiply z ! i ! j = Num (int ((i * j) mod Z_n z))"
proof -
  have "0 < Z_n z" using assms(2) by simp
  then have "(i + j) mod Z_n z < Z_n z" "(i * j) mod Z_n z < Z_n z" by simp_all
  then show ?thesis
    using Z_new_addition_nth[OF assms] Z_new_multiply_nth[OF assms] by auto
qed

theorem table_entries_in_range_witness:
  "Z_new [9, 3, 7, 4] = Inr (projr (Z_new [9, 3, 7, 4])) \<and>
   (2::nat) < Z_n (projr (Z_new [9, 3, 7, 4])) \<and> (3::nat) < Z_n (projr (Z_new [9, 3, 7, 4])) \<and>
   Z_table_addition (projr (Z_new [9, 3, 7, 4])) ! 2 ! 3 = Num 1 \<and>
   Z_table_multiply (projr (Z_new [9, 3, 7, 4])) ! 2 ! 3 = Num 2"
proof -
  have h1: "Z_new [9, 3, 7, 4] = Inr (projr (Z_new [9, 3, 7, 4]))"
    using Z_new_total[of "[9, 3, 7, 4]"] by auto
  have h2: "(2::nat) < Z_n (projr (Z_new [9, 3, 7, 4]))"
    and h3: "(3::nat) < Z_n (projr (Z_new [9, 3, 7, 4]))"
    by code_simp+
  have n: "Z_n (projr (Z_new [9, 3, 7, 4])) = 4" by code_simp
  show ?thesis
    using h1 h2 h3 table_entries_in_range[OF h1 h2 h3] by (simp add: n)
qed

section \<open>Chained operations on an element\<close>

text \<open>
  Claim C5. \<open>Z.createFromN(5).getFVar(2).divide(3).subtract(1).value\<close> is 3: the inverse
  of 3 is looked up as 2, so the division leaves \<open>2 * 2 mod 5 = 4\<close>; the additive inverse
  of 1 is looked up as 4, so the subtraction leaves \<open>(4 + 4) mod 5 = 3\<close>.
\<close>

theorem chained_divide_subtract:
  "(case createFromN 5 of
      Inl e \<Rightarrow> Inl e
    | Inr z \<Rightarrow>
        (case getFVar z (Num 2) of
           Inl e \<Rightarrow> Inl e
         | Inr v \<Rightarrow>
             (case and_then (FVar_divide (Num 3) v) (FVar_subtract (Num 1)) of
                (Some e, _) \<Rightarrow> Inl e
              | (None, v') \<Rightarrow> Inr (FVar_value v')))) = Inr (Num 3) \<and>
   findInverseVariable (projr (createFromN 5)) (Num 3) = Inr (Num 2) \<and>
   Z_multiply (projr (createFromN 5)) (Num 2) (Num 2) = Num 4 \<and>
   findAdditiveInverseVariable (projr (createFromN 5)) (Num 1) = Inr (Num 4) \<and>
   Z_sum (projr (createFromN 5)) (Num 4) (Num 4) = Num 3"
  by code_simp

section \<open>Inverse lookups and the operations\<close>

text \<open>
  Claim C1. The claim is that in every ring \<open>findInverseVariable(x)\<close>, for a nonzero
  representative \<open>x\<close>, returns a \<open>y\<close> with \<open>multiply(x, y) == 1\<close>, or \<open>undefined\<close> if there
  is none. The tables are filled from the loop counters, not from the representatives, so
  in the ring over \<open>3..9\<close> the lookup for 4 returns 4 although \<open>multiply(4, 4)\<close> is 2, and
  the lookup for 3 returns \<open>undefined\<close> although \<open>multiply(3, 5)\<close> is 1. In the rings of
  \<open>createFromN\<close> the claim holds (\<open>canonical_findInverseVariable\<close>,
  \<open>prime_findInverseVariable\<close>, \<open>composite_findInverseVariable\<close>).
\<close>

theorem non_canonical_inverse_lookup:
  "\<not> isl (createFromRange 3 9) \<and>
   Z_variables (projr (createFromRange 3 9)) = [3, 4, 5, 6, 7, 8, 9] \<and>
   findInverseVariable (projr (createFromRange 3 9)) (Num 4) = Inr (Num 4) \<and>
   Z_multiply (projr (createFromRange 3 9)) (Num 4) (Num 4) = Num 2 \<and>
   findInverseVariable (projr (createFromRange 3 9)) (Num 3) = Inr Undefined \<and>
   Z_multiply (projr (createFromRange 3 9)) (Num 3) (Num 5) = Num 1"
  by code_simp

text \<open>
  Claim C3. The claim is that in every ring \<open>findAdditiveInverseVariable(x)\<close> returns a
  \<open>y\<close> with \<open>sum(x, y) == 0\<close>, or \<open>undefined\<close> if there is none. In the ring over \<open>3..9\<close>
  the lookup for 3 returns 3 although \<open>sum(3, 3)\<close> is 6, while \<open>sum(3, 4)\<close> is 0. In the
  rings of \<open>createFromN n\<close> the claim holds, with \<open>(n - x) mod n\<close> as the inverse
  (\<open>canonical_findAdditiveInverseVariable\<close>).
\<close>

theorem non_canonical_additive_inverse_lookup:
  "\<not> isl (createFromRange 3 9) \<and>
   Z_variables (projr (createFromRange 3 9)) = [3, 4, 5, 6, 7, 8, 9] \<and>
   findAdditiveInverseVariable (projr (createFromRange 3 9)) (Num 3) = Inr (Num 3) \<and>
   Z_sum (projr (createFromRange 3 9)) (Num 3) (Num 3) = Num 6 \<and>
   Z_sum (projr (createFromRange 3 9)) (Num 3) (Num 4) = Num 0"
  by code_simp

section \<open>Calls that throw\<close>

text \<open>
  Claim C6. A call that throws leaves the state as it was. Each method of \<open>FVar\<close> that
  throws, at its own check or inside the lookup it calls, returns the element unchanged,
  because the assignment to \<open>_value\<close> comes after the whole right-hand side. The
  constructor of \<open>Z\<close> throws before it touches the array it was given. No other method
  of \<open>Z\<close> writes a field or an array of the instance: the lookups are functions of the
  ring alone, and the table getters only allocate.
\<close>

theorem failed_call_leaves_state:
  "(fst (FVar_sum x this) \<noteq> None \<longrightarrow> snd (FVar_sum x this) = this) \<and>
   (fst (FVar_subtract x this) \<noteq> None \<longrightarrow> snd (FVar_subtract x this) = this) \<and>
   (fst (FVar_multiply x this) \<noteq> None \<longrightarrow> snd (FVar_multiply x this) = this) \<and>
   (fst (FVar_divide x this) \<noteq> None \<longrightarrow> snd (FVar_divide x this) = this) \<and>
   (isl (fst (Z_construct s variables)) \<longrightarrow> snd (Z_construct s variables) = s)"
  by (simp add: FVar_sum_def FVar_subtract_def FVar_multiply_def FVar_divide_def
      Z_construct_def Let_def split: sum.splits prod.splits)

theorem failed_call_leaves_state_witness:
  "fst (FVar_sum Undefined (projr (getFVar (projr (createFromN 5)) (Num 2)))) \<noteq> None \<and>
   fst (FVar_subtract Undefined (projr (getFVar (projr (createFromN 5)) (Num 2)))) \<noteq> None \<and>
   fst (FVar_multiply Undefined (projr (getFVar (projr (createFromN 5)) (Num 2)))) \<noteq> None \<and>
   fst (FVar_divide Undefined (projr (getFVar (projr (createFromN 5)) (Num 2)))) \<noteq> None \<and>
   isl (fst (Z_construct [Ints []] 0)) \<and>
   FVar_value (snd (FVar_sum Undefined (projr (getFVar (projr (createFromN 5)) (Num 2))))) = Num 2 \<and>
   FVar_value (snd (FVar_subtract Undefined (projr (getFVar (projr (createFromN 5)) (Num 2))))) = Num 2 \<and>
   FVar_value (snd (FVar_multiply Undefined (projr (getFVar (projr (createFromN 5)) (Num 2))))) = Num 2 \<and>
   FVar_value (snd (FVar_divide Undefined (projr (getFVar (projr (createFromN 5)) (Num 2))))) = Num 2 \<and>
   snd (Z_construct [Ints []] 0) = [Ints []]"
proof -
  let ?v = "projr (getFVar (projr (createFromN 5)) (Num 2))"
  have v: "FVar_value ?v = Num 2" by (simp add: getFVar_projr)
  have f: "fst (FVar_sum Undefined ?v) \<noteq> None" "fst (FVar_subtract Undefined ?v) \<noteq> None"
    "fst (FVar_multiply Undefined ?v) \<noteq> None" "fst (FVar_divide Undefined ?v) \<noteq> None"
    by (simp_all add: FVar_sum_def FVar_subtract_def FVar_multiply_def FVar_divide_def)
  have c: "isl (fst (Z_construct [Ints []] 0))" by code_simp
  show ?thesis
    using f c v failed_call_leaves_state[of Undefined ?v "[Ints []]" 0] by simp
qed

text \<open>
  Claim C10. When the argument is present but is not a representative of the ring the
  element is bound to, \<open>subtract\<close> and \<open>divide\<close> throw and the element is unchanged. For
  a number the error is the lookup's membership error, except that \<open>divide(0)\<close> is stopped
  by the guard of \<open>divide\<close> itself; \<open>NaN\<close> is stopped by the guard of either method.
\<close>

theorem non_member_argument_throws:
  assumes "FVar_field this = Z_field z"
    and "\<not> loose_eq_null x" and "\<not> arr_includes (Z_variables z) x"
  shows "FVar_subtract x this =
           (Some (if x = NaN then SubtrahendRequired else VariableNotIncluded), this) \<and>
         FVar_divide x this =
           (Some (if x = NaN \<or> x = Num 0 then DivisorInvalid else VariableNotIncluded), this)"
  using assms
  by (cases x)
     (auto simp: FVar_subtract_def FVar_divide_def Z_field_def findAdditiveInverseVariable_def
        findInverseVariable_def)

theorem non_member_argument_throws_witness:
  "FVar_field (projr (getFVar (projr (createFromN 5)) (Num 2))) = Z_field (projr (createFromN 5)) \<and>
   \<not> loose_eq_null (Num 9) \<and>
   \<not> arr_includes (Z_variables (projr (createFromN 5))) (Num 9) \<and>
   FVar_subtract (Num 9) (projr (getFVar (projr (createFromN 5)) (Num 2))) =
     (Some VariableNotIncluded, projr (getFVar (projr (createFromN 5)) (Num 2))) \<and>
   FVar_divide (Num 9) (projr (getFVar (projr (createFromN 5)) (Num 2))) =
     (Some VariableNotIncluded, projr (getFVar (projr (createFromN 5)) (Num 2))) \<and>
   FVar_value (projr (getFVar (projr (createFromN 5)) (Num 2))) = Num 2"
proof -
  let ?z = "projr (createFromN 5)"
  let ?v = "projr (getFVar ?z (Num 2))"
  have h1: "FVar_field ?v = Z_field ?z" by (simp add: getFVar_projr)
  have h2: "\<not> loose_eq_null (Num 9)" by simp
  have h3: "\<not> arr_includes (Z_variables ?z) (Num 9)" by code_simp
  have v: "FVar_value ?v = Num 2" by (simp add: getFVar_projr)
  show ?thesis
    using h1 h2 h3 v non_member_argument_throws[OF h1 h2 h3] by simp
qed

text \<open>
  Claim C8 says that \<open>divide(x)\<close> throws if and only if \<open>x\<close> is absent or is the additive
  identity. In \<open>Z_5\<close>, with the element at 2, \<open>divide(9)\<close> throws although 9 is neither:
  the lookup of the inverse rejects a number that is not a representative.
\<close>

theorem divide_throws_for_non_member:
  "\<not> isl (createFromN 5) \<and> \<not> isl (getFVar (projr (createFromN 5)) (Num 2)) \<and>
   \<not> loose_eq_null (Num 9) \<and>
   \<not> strict_eq (Num 9) (f0 (FVar_field (projr (getFVar (projr (createFromN 5)) (Num 2))))) \<and>
   fst (FVar_divide (Num 9) (projr (getFVar (projr (createFromN 5)) (Num 2)))) =
     Some VariableNotIncluded"
  by code_simp

text \<open>
  Claim C8, amended. On an element bound to a ring, \<open>divide(x)\<close> throws at its own guard
  exactly when \<open>x\<close> is \<open>undefined\<close>, \<open>null\<close>, \<open>NaN\<close> or 0; past the guard it throws exactly
  when \<open>x\<close> is not a representative, with the error of the lookup; in both cases the
  element is unchanged. For every other \<open>x\<close>, a nonzero representative, the lookup returns
  and the value becomes \<open>multiply(value, getInverseVariable(x))\<close>.
\<close>

theorem divide_outcome:
  assumes "Z_new vs = Inr z" and "FVar_field this = Z_field z"
  shows "FVar_divide x this =
           (if x = Undefined \<or> x = Null \<or> x = NaN \<or> x = Num 0 then (Some DivisorInvalid, this)
            else if \<not> arr_includes (Z_variables z) x then (Some VariableNotIncluded, this)
            else (None, this\<lparr>FVar_value :=
                    Z_multiply z (FVar_value this) (projr (findInverseVariable z x))\<rparr>)) \<and>
         isl (findInverseVariable z x) = (falsy x \<or> \<not> arr_includes (Z_variables z) x)"
proof (cases x)
  case (Num k)
  show ?thesis
  proof (cases "k \<in> set (Z_variables z)")
    case True
    then obtain row where "row_at (Z_table_multiply z) (indexOf (Z_variables z) (Num k)) = Some row"
      using row_at_member(2)[OF assms(1)] by blast
    then show ?thesis
      using assms(2) Num True
      by (simp add: FVar_divide_def Z_field_def findInverseVariable_def Let_def)
  next
    case False
    then show ?thesis
      using assms(2) Num by (simp add: FVar_divide_def Z_field_def findInverseVariable_def)
  qed
qed (use assms(2) in \<open>simp_all add: FVar_divide_def Z_field_def findInverseVariable_def\<close>)

theorem divide_outcome_witness:
  "Z_new (createIncreasingArray 0 4) = Inr (projr (createFromN 5)) \<and>
   FVar_field (projr (getFVar (projr (createFromN 5)) (Num 2))) = Z_field (projr (createFromN 5)) \<and>
   fst (FVar_divide (Num 3) (projr (getFVar (projr (createFromN 5)) (Num 2)))) = None \<and>
   FVar_value (snd (FVar_divide (Num 3) (projr (getFVar (projr (createFromN 5)) (Num 2))))) = Num 4 \<and>
   FVar_divide (Num 9) (projr (getFVar (projr (createFromN 5)) (Num 2))) =
     (Some VariableNotIncluded, projr (getFVar (projr (createFromN 5)) (Num 2))) \<and>
   FVar_divide (Num 0) (projr (getFVar (projr (createFromN 5)) (Num 2))) =
     (Some DivisorInvalid, projr (getFVar (projr (createFromN 5)) (Num 2)))"
proof -
  let ?z = "projr (createFromN 5)"
  let ?v = "projr (getFVar ?z (Num 2))"
  have h0: "Z_new (createIncreasingArray 0 4) = Inr ?z"
    using createFromN_total[of 5] by (auto simp: createFromN_def)
  have h1: "FVar_field ?v = Z_field ?z" by (simp add: getFVar_projr)
  have m: "arr_includes (Z_variables ?z) (Num 3)" "\<not> arr_includes (Z_variables ?z) (Num 9)"
    by code_simp+
  have i: "Z_multiply ?z (Num 2) (projr (findInverseVariable ?z (Num 3))) = Num 4"
    by code_simp
  have v: "FVar_value ?v = Num 2" by (simp add: getFVar_projr)
  show ?thesis
    using h0 h1 m i v divide_outcome[OF h0 h1, of "Num 3"] divide_outcome[OF h0 h1, of "Num 9"]
      divide_outcome[OF h0 h1, of "Num 0"]
    by simp
qed

section \<open>Tables handed to the caller\<close>

text \<open>
  Claim C7. \<open>getAdditionTable\<close> and \<open>getMultiplyTable\<close> return deep copies: the table
  returned holds the same numbers as the cached one and is made of arrays that did not
  exist before the call. Whatever the caller then does to arrays created at or after the
  call, the instance reads the same tables, representatives and size as before, so every
  lookup and every operation of an element bound to it gives what it gave, and a later
  call of the getter returns the same numbers again.
\<close>

theorem returned_tables_are_copies:
  assumes "ring_in_store s h" and "\<forall>m \<in> set ms. mutation_from (length s) m"
  shows "read_matrix (snd (getAdditionTable_raw s h)) (fst (getAdditionTable_raw s h)) =
           Z_table_addition (view s h) \<and>
         read_matrix (snd (getMultiplyTable_raw s h)) (fst (getMultiplyTable_raw s h)) =
           Z_table_multiply (view s h) \<and>
         (\<forall>r \<in> set (table_addrs (snd (getAdditionTable_raw s h)) (fst (getAdditionTable_raw s h))).
            length s \<le> r) \<and>
         (\<forall>r \<in> set (table_addrs (snd (getMultiplyTable_raw s h)) (fst (getMultiplyTable_raw s h))).
            length s \<le> r) \<and>
         view (foldl apply_mutation (snd (getAdditionTable_raw s h)) ms) h = view s h \<and>
         view (foldl apply_mutation (snd (getMultiplyTable_raw s h)) ms) h = view s h \<and>
         read_matrix
           (snd (getAdditionTable_raw (foldl apply_mutation (snd (getAdditionTable_raw s h)) ms) h))
           (fst (getAdditionTable_raw (foldl apply_mutation (snd (getAdditionTable_raw s h)) ms) h)) =
           Z_table_addition (view s h) \<and>
         read_matrix
           (snd (getMultiplyTable_raw (foldl apply_mutation (snd (getMultiplyTable_raw s h)) ms) h))
           (fst (getMultiplyTable_raw (foldl apply_mutation (snd (getMultiplyTable_raw s h)) ms) h)) =
           Z_table_multiply (view s h)"
proof -
  let ?sa = "foldl apply_mutation (snd (getAdditionTable_raw s h)) ms"
  let ?sm = "foldl apply_mutation (snd (getMultiplyTable_raw s h)) ms"
  have a: "ref_addition h < length s" and m: "ref_multiply h < length s"
    using assms(1) by (simp_all add: ring_in_store_def)
  have ca: "cloneDeep s (ref_addition h) =
            (fst (getAdditionTable_raw s h), snd (getAdditionTable_raw s h))"
    by (simp add: getAdditionTable_raw_def)
  have cm: "cloneDeep s (ref_multiply h) =
            (fst (getMultiplyTable_raw s h), snd (getMultiplyTable_raw s h))"
    by (simp add: getMultiplyTable_raw_def)
  note A = table_copy_detached[OF assms(1) a ca assms(2)]
  note M = table_copy_detached[OF assms(1) m cm assms(2)]
  have ca': "cloneDeep ?sa (ref_addition h) =
             (fst (getAdditionTable_raw ?sa h), snd (getAdditionTable_raw ?sa h))"
    by (simp add: getAdditionTable_raw_def)
  have cm': "cloneDeep ?sm (ref_multiply h) =
             (fst (getMultiplyTable_raw ?sm h), snd (getMultiplyTable_raw ?sm h))"
    by (simp add: getMultiplyTable_raw_def)
  have la: "read_matrix (snd (getAdditionTable_raw ?sa h)) (fst (getAdditionTable_raw ?sa h)) =
            Z_table_addition (view ?sa h)"
    using cloneDeep_spec(2)[OF ca'] by (simp add: view_def)
  have lm: "read_matrix (snd (getMultiplyTable_raw ?sm h)) (fst (getMultiplyTable_raw ?sm h)) =
            Z_table_multiply (view ?sm h)"
    using cloneDeep_spec(2)[OF cm'] by (simp add: view_def)
  have fa: "read_matrix (snd (getAdditionTable_raw s h)) (fst (getAdditionTable_raw s h)) =
            Z_table_addition (view s h)"
    using A(1) by (simp add: view_def)
  have fm: "read_matrix (snd (getMultiplyTable_raw s h)) (fst (getMultiplyTable_raw s h)) =
            Z_table_multiply (view s h)"
    using M(1) by (simp add: view_def)
  have ra: "\<forall>r \<in> set (table_addrs (snd (getAdditionTable_raw s h)) (fst (getAdditionTable_raw s h))).
            length s \<le> r"
    using A(2) by simp
  have rm: "\<forall>r \<in> set (table_addrs (snd (getMultiplyTable_raw s h)) (fst (getMultiplyTable_raw s h))).
            length s \<le> r"
    using M(2) by simp
  show ?thesis
    using fa fm ra rm A(3) M(3) la lm by simp
qed

theorem returned_tables_are_copies_witness:
  "ring_in_store (snd (Z_construct [Ints [2, 0, 1]] 0)) (projr (fst (Z_construct [Ints [2, 0, 1]] 0))) \<and>
   list_all (mutation_from (length (snd (Z_construct [Ints [2, 0, 1]] 0))))
     [Replace 9 (Numbers [Num 7]), Replace 12 (Rows []), Allocate (Ints [5])] \<and>
   table_addrs
     (snd (getAdditionTable_raw (snd (Z_construct [Ints [2, 0, 1]] 0))
            (projr (fst (Z_construct [Ints [2, 0, 1]] 0)))))
     (fst (getAdditionTable_raw (snd (Z_construct [Ints [2, 0, 1]] 0))
            (projr (fst (Z_construct [Ints [2, 0, 1]] 0))))) = [12, 9, 10, 11] \<and>
   read_matrix
     (foldl apply_mutation
        (snd (getAdditionTable_raw (snd (Z_construct [Ints [2, 0, 1]] 0))
               (projr (fst (Z_construct [Ints [2, 0, 1]] 0)))))
        [Replace 9 (Numbers [Num 7]), Replace 12 (Rows []), Allocate (Ints [5])]) 12 = [] \<and>
   Z_table_addition
     (view
        (foldl apply_mutation
           (snd (getAdditionTable_raw (snd (Z_construct [Ints [2, 0, 1]] 0))
                  (projr (fst (Z_construct [Ints [2, 0, 1]] 0)))))
           [Replace 9 (Numbers [Num 7]), Replace 12 (Rows []), Allocate (Ints [5])])
        (projr (fst (Z_construct [Ints [2, 0, 1]] 0)))) =
     [[Num 0, Num 1, Num 2], [Num 1, Num 2, Num 0], [Num 2, Num 0, Num 1]]"
proof -
  let ?s = "snd (Z_construct [Ints [2, 0, 1]] 0)"
  let ?h = "projr (fst (Z_construct [Ints [2, 0, 1]] 0))"
  let ?ms = "[Replace 9 (Numbers [Num 7]), Replace 12 (Rows []), Allocate (Ints [5])]"
  have h1: "ring_in_store ?s ?h" by code_simp
  have l: "list_all (mutation_from (length ?s)) ?ms" by code_simp
  then have h2: "\<forall>m \<in> set ?ms. mutation_from (length ?s) m"
    unfolding list_all_iff .
  have t: "table_addrs (snd (getAdditionTable_raw ?s ?h)) (fst (getAdditionTable_raw ?s ?h)) =
           [12, 9, 10, 11]"
    by code_simp
  have r: "read_matrix (foldl apply_mutation (snd (getAdditionTable_raw ?s ?h)) ?ms) 12 = []"
    by code_simp
  have v: "Z_table_addition (view ?s ?h) =
           [[Num 0, Num 1, Num 2], [Num 1, Num 2, Num 0], [Num 2, Num 0, Num 1]]"
    by code_simp
  show ?thesis
    using h1 l t r v returned_tables_are_copies[OF h1 h2] by simp
qed

end
